theory Spec2Isabelle
  imports Complex_Main
begin

section \<open>Python values shared by the two scripts\<close>

text \<open>
  Exceptions are values. The constructors are the exceptions the two scripts can meet:
  those Python raises itself and \<open>LibraryError\<close> for whatever an external library
  (datacube, rasterio, xarray, pandas) raises.
\<close>

datatype exn =
    FileNotFoundError
  | IndexError
  | ValueError
  | ZeroDivisionError
  | OSError
  | UnboundLocalError
  | LibraryError string

text \<open>
  \<^verbatim>\<open>xs[a:b]\<close>: a negative bound counts from the end, and both bounds are clipped to
  \<open>[0, len(xs)]\<close>; the slice is empty when the clipped bounds cross.
\<close>

definition py_slice :: "'a list \<Rightarrow> int \<Rightarrow> int \<Rightarrow> 'a list" where
  "py_slice xs a b =
     (let n = int (length xs);
          lo = (if a < 0 then max (a + n) 0 else min a n);
          hi = (if b < 0 then max (b + n) 0 else min b n)
      in drop (nat lo) (take (nat hi) xs))"

text \<open>\<^verbatim>\<open>xs[i]\<close>: a negative index counts from the end; out of range raises.\<close>

definition py_index :: "'a list \<Rightarrow> int \<Rightarrow> exn + 'a" where
  "py_index xs i =
     (if 0 \<le> i \<and> i < int (length xs) then Inr (xs ! nat i)
      else if i < 0 \<and> - int (length xs) \<le> i then Inr (xs ! nat (int (length xs) + i))
      else Inl IndexError)"

text \<open>\<^verbatim>\<open>xs[a:]\<close>.\<close>

definition py_slice_from :: "'a list \<Rightarrow> int \<Rightarrow> 'a list" where
  "py_slice_from xs a = py_slice xs a (int (length xs))"

text \<open>
  An exception raised by one statement skips the statements after it: \<open>exn_bind m f\<close>
  runs \<open>f\<close> on the value of \<open>m\<close>, or passes the exception of \<open>m\<close> on.
\<close>

definition exn_bind :: "exn + 'a \<Rightarrow> ('a \<Rightarrow> exn + 'b) \<Rightarrow> exn + 'b" where
  "exn_bind m f = (case m of Inl e \<Rightarrow> Inl e | Inr v \<Rightarrow> f v)"

text \<open>
  \<^verbatim>\<open>int(s)\<close> for a string in base 10: white space around the number is dropped, one
  sign is allowed, and digits may be separated by single underscores. Anything else
  raises \<^verbatim>\<open>ValueError\<close>. Strings are sequences of bytes here: the white space is
  the space and the characters 9 to 13, the digits are \<open>0\<close> to \<open>9\<close>, and the digits and
  white space beyond ASCII that Python also accepts have no counterpart. \<^verbatim>\<open>str(i)\<close> is
  the decimal numeral of \<open>i\<close>.
\<close>

definition is_space :: "char \<Rightarrow> bool" where
  "is_space c = (of_char c \<in> {9, 10, 11, 12, 13, 32 :: nat})"

definition strip :: "string \<Rightarrow> string" where
  "strip s = rev (dropWhile is_space (rev (dropWhile is_space s)))"

definition is_digit :: "char \<Rightarrow> bool" where
  "is_digit c = (48 \<le> (of_char c :: nat) \<and> (of_char c :: nat) \<le> 57)"

definition digit_value :: "char \<Rightarrow> nat" where
  "digit_value c = of_char c - 48"

fun digits_value :: "nat \<Rightarrow> string \<Rightarrow> nat option" where
  "digits_value acc [] = Some acc"
| "digits_value acc (c # cs) =
     (if is_digit c then digits_value (acc * 10 + digit_value c) cs
      else if c = CHR ''_'' \<and> cs \<noteq> [] \<and> is_digit (hd cs) then digits_value acc cs
      else None)"

definition py_int :: "string \<Rightarrow> exn + int" where
  "py_int s =
     (let t = strip s;
          negative = (t \<noteq> [] \<and> hd t = CHR ''-'');
          u = (if t \<noteq> [] \<and> (hd t = CHR ''-'' \<or> hd t = CHR ''+'') then tl t else t)
      in if u \<noteq> [] \<and> is_digit (hd u)
         then (case digits_value 0 u of
                 Some n \<Rightarrow> Inr (if negative then - int n else int n)
               | None \<Rightarrow> Inl ValueError)
         else Inl ValueError)"

fun str_nat :: "nat \<Rightarrow> string" where
  "str_nat n =
     (if n < 10 then [char_of (48 + n)] else str_nat (n div 10) @ [char_of (48 + n mod 10)])"

declare str_nat.simps [simp del]

definition py_str :: "int \<Rightarrow> string" where
  "py_str i = (if i < 0 then CHR ''-'' # str_nat (nat (- i)) else str_nat (nat i))"

section \<open>Pipeline A: the chunk selector\<close>

text \<open>
  \<^verbatim>\<open>
  ShapesList = list(shapes)
  ChunkSize = ceil(len(ShapesList)/32) + 1
  shapessubset = shapes[(part - 1) * ChunkSize: part * ChunkSize]
  \<close>
  \<^verbatim>\<open>/\<close> is true division and \<^verbatim>\<open>ceil\<close> returns an integer. Division by 32 is exact in
  binary floating point for every list length below \<open>2^53\<close>, so the quotient is modelled
  as a real number. \<^verbatim>\<open>shapes\<close> is the open collection of the shapefile and
  \<^verbatim>\<open>ShapesList\<close> the list of its features, in the same order. A slice of the collection
  is the list of the features at the positions of the slice, as for a list, with one
  difference: a start that is still negative after the number of features has been added
  to it selects nothing, where a list would start at its first element.
\<close>

definition collection_slice :: "'a list \<Rightarrow> int \<Rightarrow> int \<Rightarrow> 'a list" where
  "collection_slice shapes a b =
     (if a < 0 \<and> a + int (length shapes) < 0 then [] else py_slice shapes a b)"

definition ChunkSize :: "'a list \<Rightarrow> int" where
  "ChunkSize ShapesList = \<lceil>real (length ShapesList) / 32\<rceil> + 1"

definition shapessubset :: "'a list \<Rightarrow> int \<Rightarrow> 'a list" where
  "shapessubset shapes part =
     collection_slice shapes ((part - 1) * ChunkSize shapes) (part * ChunkSize shapes)"

section \<open>Pipeline A: pixel counts to percentages, and the observation filter\<close>

text \<open>
  \<^verbatim>\<open>
  try:
      WaterPercent = MaskedWet / MaskedAll * 100
      DryPercent = MaskedDry / MaskedAll * 100
      UnknownPercent = (MaskedAll - (MaskedWet + MaskedDry)) / MaskedAll *100
  except ZeroDivisionError:
      WaterPercent = 0.0
      DryPercent = 0.0
      UnknownPercent = 100.0
  \<close>
  The three counts are Python integers and \<^verbatim>\<open>/\<close> is true division, which raises
  \<^verbatim>\<open>ZeroDivisionError\<close> on a zero divisor. The quotients are floating-point numbers
  in the script and real numbers here, so the model computes them exactly.
\<close>

definition py_truediv :: "int \<Rightarrow> int \<Rightarrow> exn + real" where
  "py_truediv a b = (if b = 0 then Inl ZeroDivisionError else Inr (real_of_int a / real_of_int b))"

definition percentages :: "int \<Rightarrow> int \<Rightarrow> int \<Rightarrow> exn + real \<times> real \<times> real" where
  "percentages MaskedAll MaskedWet MaskedDry =
     (case exn_bind (py_truediv MaskedWet MaskedAll) (\<lambda>q1.
           exn_bind (py_truediv MaskedDry MaskedAll) (\<lambda>q2.
           exn_bind (py_truediv (MaskedAll - (MaskedWet + MaskedDry)) MaskedAll) (\<lambda>q3.
           Inr (q1 * 100, q2 * 100, q3 * 100)))) of
        Inr (WaterPercent, DryPercent, UnknownPercent) \<Rightarrow>
          Inr (WaterPercent, DryPercent, UnknownPercent)
      | Inl e \<Rightarrow> if e = ZeroDivisionError then Inr (0, 0, 100) else Inl e)"

text \<open>
  \<^verbatim>\<open>ValidMask = [i for i, x in enumerate(InvalidObservations) if x < 10]\<close>
\<close>

definition ValidMask :: "real list \<Rightarrow> nat list" where
  "ValidMask InvalidObservations =
     map fst (filter (\<lambda>(i, x). x < 10) (enumerate 0 InvalidObservations))"

section \<open>Pipeline A: the world of the script\<close>

text \<open>
  A polygon is a feature of the shapefile: its \<^verbatim>\<open>ID\<close> and \<^verbatim>\<open>area\<close> properties and its
  geometry, a ring of projected coordinates. A time slice of the loaded dataset carries
  its time stamp, as the text that \<^verbatim>\<open>to_csv\<close> prints for it, and the three counts
  that the script takes from it under the polygon mask:
  \<^verbatim>\<open>
  MaskedAll = AllTheBitFlags.where(mask).count().item()
  MaskedWet = WetPixels.where(mask).sum().item()
  MaskedDry = DryPixels.where(mask).sum().item()
  \<close>
  The libraries the script calls are parameters of the model, collected in \<open>env\<close>; a
  call that can raise returns an exception or a value:
  \<^item> \<open>Datacube\<close>: the exception of \<^verbatim>\<open>Datacube(app = 'Polygon drill')\<close>, if it raises;
  \<^item> \<open>strptime\<close>: \<^verbatim>\<open>datetime.strptime(last_date, '%Y-%m-%d %H:%M:%S.%f')\<close>;
  \<^item> \<open>dc_load\<close>: \<^verbatim>\<open>dc.load(product='wofs_albers', geopolygon=geom)\<close> for the geometry
    and the reference system of the shapefile, followed by the mask of the polygon;
  \<^item> \<open>to_csv\<close>: \<^verbatim>\<open>ValidObs.to_dataframe().to_csv(None, header=False, index=False)\<close>
    for the time stamps of the retained slices (time stamps of a loaded dataset are
    never missing, so \<^verbatim>\<open>dropna\<close> keeps them all);
  \<^item> \<open>csv_row\<close>: the line \<^verbatim>\<open>csv.writer\<close> writes for a row of date, count and percentage.

  The world is what the script reads and changes: the text files, each the list of its
  lines, the lines printed so far, and the number of lines the file system still accepts;
  a write beyond that number raises \<^verbatim>\<open>OSError\<close>.
\<close>

record polygon =
  ID :: string
  poly_area :: real
  geometry :: "(real \<times> real) list"

record timeslice =
  time :: string
  count_all :: int
  count_wet :: int
  count_dry :: int

record env =
  Datacube :: "exn option"
  strptime :: "string \<Rightarrow> exn + nat"
  dc_load :: "(real \<times> real) list \<Rightarrow> string \<Rightarrow> exn + timeslice list"
  to_csv :: "string list \<Rightarrow> exn + string"
  csv_row :: "string \<Rightarrow> int \<Rightarrow> real \<Rightarrow> string"

record world =
  files :: "string \<Rightarrow> string list option"
  stdout :: "string list"
  free_lines :: nat

text \<open>\<^verbatim>\<open>print(s)\<close>.\<close>

definition print :: "string \<Rightarrow> world \<Rightarrow> world" where
  "print s w = w\<lparr>stdout := stdout w @ [s]\<rparr>"

text \<open>
  \<^verbatim>\<open>
  def find_lastline(fname, linenum = -1):
      with open(fname, 'r') as f:
          lines = f.read().splitlines()
          last_line = lines[linenum]
          return last_line
  \<close>
\<close>

definition find_lastline :: "world \<Rightarrow> string \<Rightarrow> int \<Rightarrow> exn + string" where
  "find_lastline w fname linenum =
     (case files w fname of
        None \<Rightarrow> Inl FileNotFoundError
      | Some lines \<Rightarrow> exn_bind (py_index lines linenum) (\<lambda>last_line. Inr last_line))"

text \<open>\<^verbatim>\<open>s.split(sep)\<close> for a separator of one character.\<close>

fun split_on :: "char \<Rightarrow> string \<Rightarrow> string list" where
  "split_on sep [] = [[]]"
| "split_on sep (c # cs) =
     (if c = sep then [] # split_on sep cs
      else (case split_on sep cs of
              word # rest \<Rightarrow> (c # word) # rest
            | [] \<Rightarrow> [[c]]))"

section \<open>Pipeline A: processing one polygon\<close>

definition shape_file :: string where
  "shape_file = ''/g/data/r78/cek156/dea-notebooks/Dams/Dams2000to2018/AllNSW2000to201810pcMinMaxRiverCleaned.shp''"

definition lastDateLog :: string where
  "lastDateLog = ''/g/data/r78/vmmn547/Dams/lastTimeLog.txt''"

definition Output_dir :: string where
  "Output_dir = ''/g/data/r78/vmn547/Dams/Timeseries_new2''"

definition output_file :: "string \<Rightarrow> string" where
  "output_file polyName = Output_dir @ ''/'' @ polyName @ ''.txt''"

text \<open>
  The first part of \<^verbatim>\<open>FindOutHowFullTheDamIs\<close>, up to the loaded dataset. Nothing here is
  inside a \<^verbatim>\<open>try\<close>: an exception leaves the function.
  \<^verbatim>\<open>
  dc = Datacube(app = 'Polygon drill')
  first_geometry = shapes['geometry']
  polyName = shapes['properties']['ID']
  print(polyName)
  polyArea = shapes['properties']['area']
  geom = geometry.Geometry(first_geometry, crs=crs)
  fname = '{0}/{1}.txt'.format(Output_dir, polyName)
  last_date, lastObs = find_lastline(fname, linenum=-1).split(',')
  from_date = datetime.strptime(last_date, '%Y-%m-%d %H:%M:%S.%f')
  query = {'geopolygon': geom}
  WOFL = dc.load(product='wofs_albers', **query)
  \<close>
  Unpacking into two names raises \<^verbatim>\<open>ValueError\<close> unless the line has exactly two
  fields. \<^verbatim>\<open>from_date\<close> is bound and not used again.
\<close>

definition acquire ::
  "env \<Rightarrow> string \<Rightarrow> polygon \<Rightarrow> world \<Rightarrow> (exn + timeslice list) \<times> world" where
  "acquire env crs shapes w =
     (case Datacube env of
        Some e \<Rightarrow> (Inl e, w)
      | None \<Rightarrow>
          let first_geometry = geometry shapes;
              polyName = ID shapes;
              w = print polyName w;
              fname = output_file polyName
          in case find_lastline w fname (- 1) of
               Inl e \<Rightarrow> (Inl e, w)
             | Inr last_line \<Rightarrow>
                 (case split_on CHR '','' last_line of
                    [last_date, lastObs] \<Rightarrow>
                      (case strptime env last_date of
                         Inl e \<Rightarrow> (Inl e, w)
                       | Inr from_date \<Rightarrow> (dc_load env first_geometry crs, w))
                  | _ \<Rightarrow> (Inl ValueError, w)))"

text \<open>
  The loop over the time steps appends one entry to each of four lists.
  \<^verbatim>\<open>
  for ix, times in enumerate(WOFL.time):
      ...
      DamCapacityPc.append(WaterPercent)
      InvalidObservations.append(UnknownPercent)
      DryObserved.append(DryPercent)
      DamCapacityCt.append(MaskedWet)
  \<close>
\<close>

type_synonym series = "real list \<times> int list \<times> real list \<times> real list"

fun timestep_loop :: "timeslice list \<Rightarrow> series \<Rightarrow> exn + series" where
  "timestep_loop [] acc = Inr acc"
| "timestep_loop (slice # rest) (DamCapacityPc, DamCapacityCt, DryObserved, InvalidObservations) =
     (let MaskedAll = count_all slice;
          MaskedWet = count_wet slice;
          MaskedDry = count_dry slice
      in case percentages MaskedAll MaskedWet MaskedDry of
           Inl e \<Rightarrow> Inl e
         | Inr (WaterPercent, DryPercent, UnknownPercent) \<Rightarrow>
             timestep_loop rest
               (DamCapacityPc @ [WaterPercent], DamCapacityCt @ [MaskedWet],
                DryObserved @ [DryPercent], InvalidObservations @ [UnknownPercent]))"

text \<open>
  \<^verbatim>\<open>open(name, 'a')\<close> creates the file when it is missing; \<^verbatim>\<open>writer.writerow(row)\<close>
  appends one line.
\<close>

definition open_append :: "string \<Rightarrow> world \<Rightarrow> world" where
  "open_append fname w =
     w\<lparr>files := (files w)(fname \<mapsto> (case files w fname of None \<Rightarrow> [] | Some ls \<Rightarrow> ls))\<rparr>"

definition writerow :: "string \<Rightarrow> string \<Rightarrow> world \<Rightarrow> exn + world" where
  "writerow fname line w =
     (if free_lines w = 0 then Inl OSError
      else Inr (w\<lparr>files := (files w)(fname \<mapsto>
                          (case files w fname of None \<Rightarrow> [] | Some ls \<Rightarrow> ls) @ [line]),
                  free_lines := free_lines w - 1\<rparr>))"

fun writerows ::
  "env \<Rightarrow> string \<Rightarrow> (string \<times> int \<times> real) list \<Rightarrow> world \<Rightarrow> exn option \<times> world" where
  "writerows env fname [] w = (None, w)"
| "writerows env fname ((date, ct, pc) # rows) w =
     (case writerow fname (csv_row env date ct pc) w of
        Inl e \<Rightarrow> (Some e, w)
      | Inr w' \<Rightarrow> writerows env fname rows w')"

text \<open>
  The body of the \<^verbatim>\<open>try\<close> statement. The result is the exception that left it, if any,
  and the world at that moment.
  \<^verbatim>\<open>
  ValidMask = [i for i, x in enumerate(InvalidObservations) if x < 10]
  ValidObs = WOFL.time[ValidMask].dropna(dim = 'time')
  ValidCapacityPc = [DamCapacityPc[i] for i in ValidMask]
  ValidCapacityCt = [DamCapacityCt[i] for i in ValidMask]
  DateList = ValidObs.to_dataframe().to_csv(None, header=False, index=False).split('\n')
  rows = zip(DateList,ValidCapacityCt,ValidCapacityPc)
  if DateList:
      with open('{0}/{1}.txt'.format(Output_dir, polyName), 'a') as f:
          writer = csv.writer(f)
          for row in rows:
              writer.writerow(row)
  \<close>
  The indices of \<open>ValidMask\<close> are positions of \<open>InvalidObservations\<close>, and the four columns
  and the dataset have the same length, so no index is out of range.
\<close>

definition filter_and_write ::
  "env \<Rightarrow> string \<Rightarrow> timeslice list \<Rightarrow> series \<Rightarrow> world \<Rightarrow> exn option \<times> world" where
  "filter_and_write env polyName WOFL columns w =
     (case columns of (DamCapacityPc, DamCapacityCt, DryObserved, InvalidObservations) \<Rightarrow>
        let ValidMask' = ValidMask InvalidObservations;
            ValidObs = map (\<lambda>i. time (WOFL ! i)) ValidMask';
            ValidCapacityPc = map (\<lambda>i. DamCapacityPc ! i) ValidMask';
            ValidCapacityCt = map (\<lambda>i. DamCapacityCt ! i) ValidMask'
        in case to_csv env ValidObs of
             Inl e \<Rightarrow> (Some e, w)
           | Inr text \<Rightarrow>
               let DateList = split_on (CHR 0x0A) text;
                   rows = zip DateList (zip ValidCapacityCt ValidCapacityPc)
               in if DateList \<noteq> []
                  then writerows env (output_file polyName) rows
                         (open_append (output_file polyName) w)
                  else (None, w))"

text \<open>
  The whole function: the first part, the loop, and the \<^verbatim>\<open>try\<close> statement with its handler
  \<^verbatim>\<open>
  except:
      print(f'This polygon isn\'t working...: {polyName}')
  \<close>
  The result is the exception that left the function, if any, and the world.
\<close>

definition FindOutHowFullTheDamIs ::
  "env \<Rightarrow> string \<Rightarrow> polygon \<Rightarrow> world \<Rightarrow> exn option \<times> world" where
  "FindOutHowFullTheDamIs env crs shapes w =
     (case acquire env crs shapes w of
        (Inl e, w) \<Rightarrow> (Some e, w)
      | (Inr WOFL, w) \<Rightarrow>
          (case timestep_loop WOFL ([], [], [], []) of
             Inl e \<Rightarrow> (Some e, w)
           | Inr columns \<Rightarrow>
               (case filter_and_write env (ID shapes) WOFL columns w of
                  (None, w) \<Rightarrow> (None, w)
                | (Some e, w) \<Rightarrow>
                    (None, print (''This polygon isn't working...: '' @ ID shapes) w))))"

section \<open>Pipeline A: the script\<close>

text \<open>
  \<^verbatim>\<open>
  for shapes in shapessubset:
      FindOutHowFullTheDamIs(shapes, crs)
  \<close>
\<close>

fun for_loop :: "env \<Rightarrow> string \<Rightarrow> polygon list \<Rightarrow> world \<Rightarrow> exn option \<times> world" where
  "for_loop env crs [] w = (None, w)"
| "for_loop env crs (shapes # rest) w =
     (case FindOutHowFullTheDamIs env crs shapes w of
        (Some e, w) \<Rightarrow> (Some e, w)
      | (None, w) \<Rightarrow> for_loop env crs rest w)"

text \<open>
  The script from its first statement, for the command line \<open>argv\<close> and a shapefile
  with the reference system \<open>crs\<close> and the features \<open>ShapesList\<close>.
  \<^verbatim>\<open>
  print(f'Reading in {shape_file}')
  lastTime = find_lastline(lastDateLog)
  part = sys.argv[1]
  part = int(part)
  print(f'Working on chunk {part}')
  ...
  print(f'The index we will use is {(part - 1) * ChunkSize, part * ChunkSize}')
  \<close>
\<close>

definition script ::
  "env \<Rightarrow> string list \<Rightarrow> string \<Rightarrow> polygon list \<Rightarrow> world \<Rightarrow> exn option \<times> world" where
  "script env argv crs ShapesList w =
     (let w = print (''Reading in '' @ shape_file) w
      in case find_lastline w lastDateLog (- 1) of
           Inl e \<Rightarrow> (Some e, w)
         | Inr lastTime \<Rightarrow>
             (case exn_bind (py_index argv 1) py_int of
                Inl e \<Rightarrow> (Some e, w)
              | Inr part \<Rightarrow>
                  let w = print (''Working on chunk '' @ py_str part) w;
                      ChunkSize' = ChunkSize ShapesList;
                      shapessubset' = shapessubset ShapesList part;
                      w = print (''The index we will use is ('' @ py_str ((part - 1) * ChunkSize')
                                 @ '', '' @ py_str (part * ChunkSize') @ '')'') w
                  in for_loop env crs shapessubset' w))"

section \<open>Pipeline B: output directory, threshold classes and polygon filter\<close>

text \<open>
  \<^verbatim>\<open>
  if season == 'Summer':
      year = tif[13:17]
      nextyear = str(int(year) + 1)[2:]
      year = year + "_" + nextyear
      year = season + year
  if season == 'Winter':
      year = tif[7:11]
      year = season + year
  directory = results_ + AOI + "_" + year
  \<close>
  \<^verbatim>\<open>season\<close>, \<^verbatim>\<open>results\<close> and \<^verbatim>\<open>AOI\<close> are globals of the script. With a season that
  is neither of the two, \<^verbatim>\<open>year\<close> is read before it is assigned. \<open>year_label\<close> takes
  the season as an argument so that both branches can be stated; \<open>directory\<close> is what
  the script computes with its own season.
\<close>

definition season :: string where
  "season = ''Summer''"

definition results :: string where
  "results = ''/g/data/r78/cb3058/dea-notebooks/ICE_project/results/SA_MDB/''"

definition AOI :: string where
  "AOI = ''SA_MDB''"

definition year_label :: "string \<Rightarrow> string \<Rightarrow> exn + string" where
  "year_label season' tif =
     exn_bind
       (if season' = ''Summer''
        then exn_bind (py_int (py_slice tif 13 17))
               (\<lambda>n. let year = py_slice tif 13 17;
                         nextyear = py_slice_from (py_str (n + 1)) 2;
                         year = year @ ''_'' @ nextyear;
                         year = season' @ year
                     in Inr (Some year))
        else Inr None)
       (\<lambda>year.
          let year = (if season' = ''Winter'' then Some (season' @ py_slice tif 7 11) else year)
          in case year of None \<Rightarrow> Inl UnboundLocalError | Some y \<Rightarrow> Inr y)"

definition directory :: "string \<Rightarrow> exn + string" where
  "directory tif = exn_bind (year_label season tif) (\<lambda>year. Inr (results @ AOI @ ''_'' @ year))"

text \<open>
  \<^verbatim>\<open>
  a = np.where(segment_means.values>=0.8, 80, segment_means.values)
  b = np.where((a>=0.70) & (a<0.8), 70, a)
  c = np.where((b>=0.60) & (b<0.70), 60, b)
  d = np.where((c>=0.55) & (c<0.60), 55, c)
  e = np.where(d>=55, d, np.nan)
  \<close>
  The arrays are processed element by element; \<open>multithreshold\<close> is what happens to one
  element. An element is a number or NaN, and every comparison with NaN is false. The
  numbers are floating-point values in the script and real numbers here.
\<close>

datatype npfloat = Val real | NaN

definition np_ge :: "npfloat \<Rightarrow> real \<Rightarrow> bool" where
  "np_ge x t = (case x of Val v \<Rightarrow> t \<le> v | NaN \<Rightarrow> False)"

definition np_lt :: "npfloat \<Rightarrow> real \<Rightarrow> bool" where
  "np_lt x t = (case x of Val v \<Rightarrow> v < t | NaN \<Rightarrow> False)"

definition multithreshold :: "npfloat \<Rightarrow> npfloat" where
  "multithreshold v =
     (let a = (if np_ge v 0.8 then Val 80 else v);
          b = (if np_ge a 0.70 \<and> np_lt a 0.8 then Val 70 else a);
          c = (if np_ge b 0.60 \<and> np_lt b 0.70 then Val 60 else b);
          d = (if np_ge c 0.55 \<and> np_lt c 0.60 then Val 55 else c);
          e = (if np_ge d 55 then d else NaN)
      in e)"

text \<open>
  \<^verbatim>\<open>
  gdf['area'] = gdf['geometry'].area
  smallArea = gdf['area'] <= 50000000
  gdf = gdf[smallArea]
  gdf = gdf[gdf.DN==60]
  gdf = gdf[gdf.area>100000]
  \<close>
  A feature carries its class \<open>DN\<close> and the planar area of its geometry.
\<close>

record feature =
  DN :: int
  area :: real

definition filter_polygons :: "feature list \<Rightarrow> feature list" where
  "filter_polygons gdf =
     (let smallArea = (\<lambda>f. area f \<le> 50000000);
          gdf = filter smallArea gdf;
          gdf = filter (\<lambda>f. DN f = 60) gdf;
          gdf = filter (\<lambda>f. area f > 100000) gdf
      in gdf)"

section \<open>A small world for the examples\<close>

text \<open>
  Four time slices, with 0, 10, 100 and 5 per cent of indeterminate pixels; an
  environment that always loads them; a polygon for each name; and a world in which
  only polygon \<open>7\<close> has an output file, with the given last line. The environment
  parses a time stamp written in full, \<open>YYYY-MM-DD HH:MM:SS.ffffff\<close>, to the number its
  twenty digits spell, and rejects every other string; it does not check the ranges of
  the fields.
\<close>

definition example_strptime :: "string \<Rightarrow> exn + nat" where
  "example_strptime s =
     (if length s = 26 \<and> map (\<lambda>k. s ! k) [4, 7, 10, 13, 16, 19] = ''-- ::.'' \<and>
         length (filter is_digit s) = 20
      then (case digits_value 0 (filter is_digit s) of
              Some n \<Rightarrow> Inr n
            | None \<Rightarrow> Inl ValueError)
      else Inl ValueError)"

definition example_WOFL :: "timeslice list" where
  "example_WOFL =
     [\<lparr>time = ''2018-01-01'', count_all = 10, count_wet = 4, count_dry = 6\<rparr>,
      \<lparr>time = ''2018-01-17'', count_all = 10, count_wet = 3, count_dry = 6\<rparr>,
      \<lparr>time = ''2018-02-02'', count_all = 0, count_wet = 0, count_dry = 0\<rparr>,
      \<lparr>time = ''2018-02-18'', count_all = 20, count_wet = 19, count_dry = 0\<rparr>]"

definition example_env :: env where
  "example_env =
     \<lparr>Datacube = None,
      strptime = example_strptime,
      dc_load = (\<lambda>g crs. Inr example_WOFL),
      to_csv = (\<lambda>ts. Inr (concat (map (\<lambda>t. t @ [CHR 0x0A]) ts))),
      csv_row = (\<lambda>date ct pc. date @ '','' @ py_str ct @ '','' @ py_str \<lfloor>pc\<rfloor>)\<rparr>"

definition example_polygon :: "string \<Rightarrow> polygon" where
  "example_polygon polyName = \<lparr>ID = polyName, poly_area = 1, geometry = []\<rparr>"

definition example_world :: "string \<Rightarrow> nat \<Rightarrow> world" where
  "example_world checkpoint n =
     \<lparr>files = [lastDateLog \<mapsto> [''2018-08-01''], output_file ''7'' \<mapsto> [checkpoint]],
      stdout = [],
      free_lines = n\<rparr>"

section \<open>Properties of the chunk selector\<close>

lemma ChunkSize_div: "ChunkSize xs = (int (length xs) + 31) div 32 + 1"
proof -
  have "\<lceil>real (length xs) / 32\<rceil> = (int (length xs) + 31) div 32"
    by linarith
  then show ?thesis
    by (simp add: ChunkSize_def)
qed

lemma ChunkSize_pos: "0 < ChunkSize xs"
proof -
  have "0 \<le> (int (length xs) + 31) div 32"
    by simp
  then show ?thesis
    by (simp add: ChunkSize_div)
qed

lemma ChunkSize_cover: "int (length xs) < 32 * ChunkSize xs"
proof -
  define q where "q = (int (length xs) + 31) div 32"
  define r where "r = (int (length xs) + 31) mod 32"
  have "int (length xs) + 31 = 32 * q + r"
    by (simp add: q_def r_def)
  moreover have "r < 32"
    by (simp add: r_def)
  ultimately have "int (length xs) < 32 * (q + 1)"
    by arith
  then show ?thesis
    by (simp only: ChunkSize_div q_def)
qed

lemma drop_take_nth: "hi \<le> length xs \<Longrightarrow> drop lo (take hi xs) = map (\<lambda>k. xs ! k) [lo..<hi]"
  by (rule nth_equalityI) auto

lemma py_slice_nonneg:
  assumes "0 \<le> a" and "0 \<le> b"
  shows "py_slice xs a b = drop (nat a) (take (nat b) xs)"
proof -
  let ?n = "int (length xs)"
  have t: "take (nat (min b ?n)) xs = take (nat b) xs"
    by (cases "b \<le> ?n") (simp_all add: min_def)
  have d: "drop (nat (min a ?n)) (take (nat b) xs) = drop (nat a) (take (nat b) xs)"
  proof (cases "a \<le> ?n")
    case True
    then show ?thesis by (simp add: min_def)
  next
    case False
    then have "length xs \<le> nat a" by arith
    then have "drop (nat a) (take (nat b) xs) = []" by simp
    moreover have "drop (nat ?n) (take (nat b) xs) = []" by simp
    ultimately show ?thesis using False by (simp add: min_def)
  qed
  show ?thesis
    using assms t d by (simp add: py_slice_def Let_def)
qed

lemma collection_slice_nonneg: "0 \<le> a \<Longrightarrow> collection_slice xs a b = py_slice xs a b"
  by (simp add: collection_slice_def)

lemma shapessubset_chunk:
  "shapessubset xs (int k + 1) =
     take (nat (ChunkSize xs)) (drop (k * nat (ChunkSize xs)) xs)"
proof -
  let ?c = "nat (ChunkSize xs)"
  have c: "ChunkSize xs = int ?c"
    using ChunkSize_pos [of xs] by simp
  have a: "nat ((int k + 1 - 1) * ChunkSize xs) = k * ?c"
    by (simp add: nat_mult_distrib)
  have b: "nat ((int k + 1) * ChunkSize xs) = ?c + k * ?c"
    by (subst c) (simp add: nat_mult_distrib nat_add_distrib algebra_simps del: of_nat_nat)
  have nn: "0 \<le> (int k + 1 - 1) * ChunkSize xs"
    using ChunkSize_pos [of xs] by simp
  have "shapessubset xs (int k + 1) =
          py_slice xs ((int k + 1 - 1) * ChunkSize xs) ((int k + 1) * ChunkSize xs)"
    by (simp only: shapessubset_def collection_slice_nonneg [OF nn])
  also have "\<dots> = drop (k * ?c) (take (?c + k * ?c) xs)"
    using ChunkSize_pos [of xs] by (subst py_slice_nonneg) (simp_all only: a b, simp_all)
  finally show ?thesis
    by (simp add: take_drop)
qed

lemma concat_chunks:
  "concat (map (\<lambda>k. take c (drop (k * c) xs)) [0..<m]) = take (m * c) xs"
proof (induction m)
  case 0
  show ?case by simp
next
  case (Suc m)
  have "Suc m * c = m * c + c"
    by simp
  then have "take (Suc m * c) xs = take (m * c) xs @ take c (drop (m * c) xs)"
    by (simp only: take_add)
  with Suc show ?case by simp
qed

lemma chunks_disjoint:
  assumes "distinct xs" and "k < l"
  shows "set (take c (drop (k * c) xs)) \<inter> set (take c (drop (l * c) xs)) = {}"
proof -
  have le: "c + k * c \<le> l * c"
  proof -
    from \<open>k < l\<close> have "Suc k * c \<le> l * c"
      by (intro mult_le_mono1) simp
    then show ?thesis by simp
  qed
  have "take c (drop (k * c) xs) = drop (k * c) (take (c + k * c) xs)"
    by (simp add: take_drop)
  then have "set (take c (drop (k * c) xs)) \<subseteq> set (take (c + k * c) xs)"
    by (simp add: set_drop_subset)
  moreover have "set (take c (drop (l * c) xs)) \<subseteq> set (drop (l * c) xs)"
    by (rule set_take_subset)
  moreover have "set (take (c + k * c) xs) \<inter> set (drop (l * c) xs) = {}"
    using assms(1) le by (rule set_take_disj_set_drop_if_distinct)
  ultimately show ?thesis by blast
qed

lemma upto_1_32: "[1..32] = map (\<lambda>k. int k + 1) [0..<32]"
  by code_simp

lemma py_slice_clip:
  "0 \<le> a \<Longrightarrow> 0 \<le> b \<Longrightarrow>
   py_slice xs a b =
     drop (nat (min (int (length xs)) a)) (take (nat (min (int (length xs)) b)) xs)"
  by (simp add: py_slice_def Let_def min.commute)

text \<open>
  Claim C1. For a 1-based chunk index \<open>part\<close> and a polygon list of any length \<open>n\<close>,
  the chunk selector returns the elements at the positions from
  \<open>(part - 1) * (ceil(n/32) + 1)\<close> up to, not including, \<open>part * (ceil(n/32) + 1)\<close>,
  both bounds clipped to \<open>n\<close>, in the order of the list.
\<close>

theorem shapessubset_slice_bounds:
  assumes "1 \<le> part"
  shows "shapessubset xs part =
           map (\<lambda>k. xs ! k)
             [nat (min (int (length xs)) ((part - 1) * (\<lceil>real (length xs) / 32\<rceil> + 1))) ..<
              nat (min (int (length xs)) (part * (\<lceil>real (length xs) / 32\<rceil> + 1)))]"
proof -
  have c: "0 < ChunkSize xs"
    by (rule ChunkSize_pos)
  from assms c have a: "0 \<le> (part - 1) * ChunkSize xs"
    by simp
  from assms c have b: "0 \<le> part * ChunkSize xs"
    by simp
  have "nat (min (int (length xs)) (part * ChunkSize xs)) \<le> length xs"
    by simp
  then show ?thesis
    unfolding shapessubset_def collection_slice_nonneg [OF a] py_slice_clip [OF a b]
    by (simp only: drop_take_nth ChunkSize_def)
qed

theorem shapessubset_slice_bounds_witness:
  "(1::int) \<le> 2 \<and> shapessubset [10, 20, 30 :: nat] 2 = [30]"
  using shapessubset_slice_bounds [of 2 "[10, 20, 30 :: nat]"]
  by (simp add: upt_rec)

text \<open>
  Claim C2. The chunks for the indices 1 to 32, put one after the other, are the whole
  polygon list: every position of the list is in exactly one of them, none is left out
  and none is repeated. When the polygons are pairwise different, the chunks for two
  different indices (from 1 on) have no polygon in common.
\<close>

theorem chunks_partition:
  "concat (map (shapessubset xs) [1..32]) = xs \<and>
   (distinct xs \<longrightarrow>
      (\<forall>i j. 1 \<le> i \<and> 1 \<le> j \<and> i \<noteq> j \<longrightarrow>
         set (shapessubset xs i) \<inter> set (shapessubset xs j) = {}))"
proof (intro conjI impI allI)
  let ?c = "nat (ChunkSize xs)"
  have "int (length xs) < 32 * ChunkSize xs"
    by (rule ChunkSize_cover)
  then have cover: "length xs \<le> 32 * ?c"
    by arith
  have "concat (map (shapessubset xs) [1..32]) =
          concat (map (\<lambda>k. take ?c (drop (k * ?c) xs)) [0..<32])"
    by (simp only: upto_1_32 map_map o_def shapessubset_chunk)
  also have "\<dots> = take (32 * ?c) xs"
    by (rule concat_chunks)
  also have "\<dots> = xs"
    using cover by simp
  finally show "concat (map (shapessubset xs) [1..32]) = xs" .
next
  fix i j :: int
  let ?c = "nat (ChunkSize xs)"
  assume d: "distinct xs" and ij: "1 \<le> i \<and> 1 \<le> j \<and> i \<noteq> j"
  define k where "k = nat (i - 1)"
  define l where "l = nat (j - 1)"
  from ij have i: "i = int k + 1" and j: "j = int l + 1" and kl: "k \<noteq> l"
    by (auto simp: k_def l_def)
  from kl consider "k < l" | "l < k"
    by arith
  then have "set (take ?c (drop (k * ?c) xs)) \<inter> set (take ?c (drop (l * ?c) xs)) = {}"
  proof cases
    case 1
    with d show ?thesis by (rule chunks_disjoint)
  next
    case 2
    with d have "set (take ?c (drop (l * ?c) xs)) \<inter> set (take ?c (drop (k * ?c) xs)) = {}"
      by (rule chunks_disjoint)
    then show ?thesis by blast
  qed
  then show "set (shapessubset xs i) \<inter> set (shapessubset xs j) = {}"
    by (simp only: i j shapessubset_chunk)
qed

theorem chunks_partition_witness:
  "distinct [10, 20, 30 :: nat] \<and> (1::int) \<le> 1 \<and> (1::int) \<le> 2 \<and> (1::int) \<noteq> 2 \<and>
   set (shapessubset [10, 20, 30 :: nat] 1) \<inter> set (shapessubset [10, 20, 30 :: nat] 2) = {} \<and>
   concat (map (shapessubset [10, 20, 30 :: nat]) [1..32]) = [10, 20, 30]"
  using chunks_partition [of "[10, 20, 30 :: nat]"]
  by simp

section \<open>Properties of Pipeline B and of the percentage computation\<close>

lemma py_int_2010: "py_int ''2010'' = Inr 2010"
  by code_simp

lemma nextyear_2010: "py_slice_from (py_str 2011) 2 = ''11''"
  by code_simp

text \<open>
  Claim C9, as the script computes it. With season \<open>Summer\<close> and the characters 13 to 16
  of the file name equal to \<open>2010\<close>, the label is \<open>Summer2010_11\<close>: the four digits of
  the year are kept, followed by the last two digits of the next year. The output
  directory is the results directory followed by \<open>SA_MDB_Summer2010_11\<close>.
\<close>

theorem summer_2010_label:
  assumes "py_slice tif 13 17 = ''2010''"
  shows "year_label ''Summer'' tif = Inr ''Summer2010_11'' \<and>
         directory tif = Inr (results @ ''SA_MDB_Summer2010_11'')"
proof -
  have y: "year_label ''Summer'' tif = Inr ''Summer2010_11''"
    by (simp add: year_label_def assms py_int_2010 exn_bind_def nextyear_2010 Let_def)
  then show ?thesis
    by (simp add: directory_def season_def AOI_def exn_bind_def)
qed

theorem summer_2010_label_witness:
  "py_slice ''SA_MDB_Summer2010.tif'' 13 17 = ''2010'' \<and>
   year_label ''Summer'' ''SA_MDB_Summer2010.tif'' = Inr ''Summer2010_11''"
proof -
  have h: "py_slice ''SA_MDB_Summer2010.tif'' 13 17 = ''2010''"
    by (simp add: py_slice_def)
  from summer_2010_label [OF h] h show ?thesis
    by simp
qed

text \<open>
  Claim C9 as stated gives the label \<open>Summer10_11\<close>. For the file name
  \<open>SA_MDB_Summer2010.tif\<close>, which carries \<open>2010\<close> at the offset, the script's label is not
  that one.
\<close>

theorem summer_2010_label_counterexample:
  "py_slice ''SA_MDB_Summer2010.tif'' 13 17 = ''2010'' \<and>
   season = ''Summer'' \<and>
   year_label season ''SA_MDB_Summer2010.tif'' \<noteq> Inr ''Summer10_11''"
proof -
  have h: "py_slice ''SA_MDB_Summer2010.tif'' 13 17 = ''2010''"
    by (simp add: py_slice_def)
  have "year_label season ''SA_MDB_Summer2010.tif'' = Inr ''Summer2010_11''"
    by (simp add: season_def year_label_def h py_int_2010 exn_bind_def nextyear_2010 Let_def)
  with h show ?thesis
    by (simp add: season_def)
qed

text \<open>
  Claim C5. A segment mean of at least 0.8 becomes 80; from 0.70 up to but not including
  0.8 it becomes 70; from 0.60 up to 0.70 it becomes 60; from 0.55 (included) up to 0.60
  it becomes 55; below 0.55 it becomes NaN, the no-data value.
\<close>

theorem multithreshold_bands:
  "(0.8 \<le> v \<longrightarrow> multithreshold (Val v) = Val 80) \<and>
   (0.70 \<le> v \<and> v < 0.8 \<longrightarrow> multithreshold (Val v) = Val 70) \<and>
   (0.60 \<le> v \<and> v < 0.70 \<longrightarrow> multithreshold (Val v) = Val 60) \<and>
   (0.55 \<le> v \<and> v < 0.60 \<longrightarrow> multithreshold (Val v) = Val 55) \<and>
   (v < 0.55 \<longrightarrow> multithreshold (Val v) = NaN)"
  by (simp add: multithreshold_def np_ge_def np_lt_def Let_def)

theorem multithreshold_bands_witness:
  "multithreshold (Val 0.85) = Val 80 \<and> multithreshold (Val 0.75) = Val 70 \<and>
   multithreshold (Val 0.62) = Val 60 \<and> multithreshold (Val 0.56) = Val 55 \<and>
   multithreshold (Val 0.55) = Val 55 \<and> multithreshold (Val 0.50) = NaN"
  using multithreshold_bands [of "0.85"] multithreshold_bands [of "0.75"]
    multithreshold_bands [of "0.62"] multithreshold_bands [of "0.56"]
    multithreshold_bands [of "0.55"] multithreshold_bands [of "0.50"]
  by simp

text \<open>
  Claim C6. A feature is in the filtered set exactly when it was a candidate, its area
  is at most 50,000,000, its class is 60 and its area is more than 100,000. Of the three
  features (60, 150,000), (60, 90,000) and (70, 150,000) only the first is kept.
\<close>

theorem filter_polygons_keeps:
  "(f \<in> set (filter_polygons gdf) \<longleftrightarrow>
      f \<in> set gdf \<and> area f \<le> 50000000 \<and> DN f = 60 \<and> area f > 100000) \<and>
   filter_polygons
     [\<lparr>DN = 60, area = 150000\<rparr>, \<lparr>DN = 60, area = 90000\<rparr>, \<lparr>DN = 70, area = 150000\<rparr>] =
     [\<lparr>DN = 60, area = 150000\<rparr>]"
  by (auto simp add: filter_polygons_def Let_def)

text \<open>
  Claim C8. With a pixel total of 0 the percentages are 0, 0 and 100. With any other
  total the computation succeeds and the three percentages add up to exactly 100.
\<close>

theorem percentages_total:
  "(MaskedAll = 0 \<longrightarrow> percentages MaskedAll MaskedWet MaskedDry = Inr (0, 0, 100)) \<and>
   (MaskedAll \<noteq> 0 \<longrightarrow>
      (\<exists>w d u. percentages MaskedAll MaskedWet MaskedDry = Inr (w, d, u) \<and> w + d + u = 100))"
proof (intro conjI impI)
  assume "MaskedAll = 0"
  then show "percentages MaskedAll MaskedWet MaskedDry = Inr (0, 0, 100)"
    by (simp add: percentages_def py_truediv_def exn_bind_def)
next
  assume nz: "MaskedAll \<noteq> 0"
  let ?a = "real_of_int MaskedAll"
  let ?w = "real_of_int MaskedWet / ?a * 100"
  let ?d = "real_of_int MaskedDry / ?a * 100"
  let ?u = "real_of_int (MaskedAll - (MaskedWet + MaskedDry)) / ?a * 100"
  from nz have "percentages MaskedAll MaskedWet MaskedDry = Inr (?w, ?d, ?u)"
    by (simp add: percentages_def py_truediv_def exn_bind_def)
  moreover from nz have "?w + ?d + ?u = 100"
    by (simp add: field_simps)
  ultimately show "\<exists>w d u. percentages MaskedAll MaskedWet MaskedDry = Inr (w, d, u) \<and> w + d + u = 100"
    by blast
qed

theorem percentages_total_witness:
  "percentages 0 0 0 = Inr (0, 0, 100) \<and>
   (\<exists>w d u. percentages 8 3 4 = Inr (w, d, u) \<and> w + d + u = 100)"
  using percentages_total [of 0 0 0] percentages_total [of 8 3 4]
  by simp

section \<open>Properties of the per-polygon processing and of the script\<close>

lemma files_print [simp]: "files (print s w) = files w"
  by (simp add: print_def)

lemma stdout_print [simp]: "stdout (print s w) = stdout w @ [s]"
  by (simp add: print_def)

lemma free_lines_print [simp]: "free_lines (print s w) = free_lines w"
  by (simp add: print_def)

lemma find_lastline_print [simp]: "find_lastline (print s w) f n = find_lastline w f n"
  by (simp add: find_lastline_def)

lemma stdout_writerows [simp]: "stdout (snd (writerows env f rows w)) = stdout w"
  by (induction env f rows w rule: writerows.induct)
     (auto simp add: writerow_def split: sum.splits if_splits)

lemma stdout_filter_and_write [simp]:
  "stdout (snd (filter_and_write env polyName WOFL columns w)) = stdout w"
  by (auto simp add: filter_and_write_def Let_def open_append_def split: prod.splits sum.splits)

lemma writerows_indep:
  assumes "free_lines w1 = free_lines w2"
    and "files w1 f = Some (old1 @ s)"
    and "files w2 f = Some (old2 @ s)"
  shows "\<exists>s'. files (snd (writerows env f rows w1)) f = Some (old1 @ s') \<and>
              files (snd (writerows env f rows w2)) f = Some (old2 @ s') \<and>
              fst (writerows env f rows w1) = fst (writerows env f rows w2)"
  using assms
proof (induction rows arbitrary: w1 w2 s)
  case Nil
  then show ?case by simp
next
  case (Cons row rows)
  obtain date ct pc where row: "row = (date, ct, pc)"
    by (cases row) auto
  show ?case
  proof (cases "free_lines w2 = 0")
    case True
    with Cons.prems show ?thesis
      by (simp add: row writerow_def)
  next
    case False
    let ?line = "csv_row env date ct pc"
    let ?w1 = "w1\<lparr>files := (files w1)(f \<mapsto> (old1 @ s) @ [?line]), free_lines := free_lines w1 - 1\<rparr>"
    let ?w2 = "w2\<lparr>files := (files w2)(f \<mapsto> (old2 @ s) @ [?line]), free_lines := free_lines w2 - 1\<rparr>"
    have "\<exists>s'. files (snd (writerows env f rows ?w1)) f = Some (old1 @ s') \<and>
               files (snd (writerows env f rows ?w2)) f = Some (old2 @ s') \<and>
               fst (writerows env f rows ?w1) = fst (writerows env f rows ?w2)"
      by (rule Cons.IH [where s = "s @ [?line]"]) (simp_all add: Cons.prems)
    moreover have "writerows env f (row # rows) w1 = writerows env f rows ?w1"
      using False Cons.prems by (simp add: row writerow_def)
    moreover have "writerows env f (row # rows) w2 = writerows env f rows ?w2"
      using False Cons.prems by (simp add: row writerow_def)
    ultimately show ?thesis by simp
  qed
qed

lemma filter_and_write_indep:
  assumes "free_lines w1 = free_lines w2"
    and "files w1 (output_file polyName) = Some old1"
    and "files w2 (output_file polyName) = Some old2"
  shows "\<exists>rows.
           files (snd (filter_and_write env polyName WOFL columns w1)) (output_file polyName) =
             Some (old1 @ rows) \<and>
           files (snd (filter_and_write env polyName WOFL columns w2)) (output_file polyName) =
             Some (old2 @ rows) \<and>
           fst (filter_and_write env polyName WOFL columns w1) =
             fst (filter_and_write env polyName WOFL columns w2)"
proof -
  obtain Pc Ct Dry Inv where columns: "columns = (Pc, Ct, Dry, Inv)"
    using prod_cases4 by blast
  let ?f = "output_file polyName"
  let ?obs = "map (\<lambda>i. time (WOFL ! i)) (ValidMask Inv)"
  show ?thesis
  proof (cases "to_csv env ?obs")
    case (Inl e)
    with assms show ?thesis
      by (simp add: filter_and_write_def columns Let_def)
  next
    case (Inr csv)
    let ?rows = "zip (split_on (CHR 0x0A) csv)
                   (zip (map (\<lambda>i. Ct ! i) (ValidMask Inv)) (map (\<lambda>i. Pc ! i) (ValidMask Inv)))"
    show ?thesis
    proof (cases "split_on (CHR 0x0A) csv = []")
      case True
      with assms Inr show ?thesis
        by (simp add: filter_and_write_def columns Let_def)
    next
      case False
      have "\<exists>s'. files (snd (writerows env ?f ?rows (open_append ?f w1))) ?f = Some (old1 @ s') \<and>
                 files (snd (writerows env ?f ?rows (open_append ?f w2))) ?f = Some (old2 @ s') \<and>
                 fst (writerows env ?f ?rows (open_append ?f w1)) =
                   fst (writerows env ?f ?rows (open_append ?f w2))"
        by (rule writerows_indep [where s = "[]"]) (simp_all add: open_append_def assms)
      with Inr False show ?thesis
        by (simp add: filter_and_write_def columns Let_def)
    qed
  qed
qed

lemma timestep_loop_total: "\<exists>columns. timestep_loop WOFL acc = Inr columns"
proof (induction WOFL arbitrary: acc)
  case Nil
  show ?case by (intro exI [of _ acc]) simp
next
  case (Cons slice WOFL)
  obtain Pc Ct Dry Inv where acc: "acc = (Pc, Ct, Dry, Inv)"
    using prod_cases4 by blast
  obtain w d u where p: "percentages (count_all slice) (count_wet slice) (count_dry slice) = Inr (w, d, u)"
    by (cases "count_all slice = 0") (auto simp add: percentages_def py_truediv_def exn_bind_def)
  from Cons [of "(Pc @ [w], Ct @ [count_wet slice], Dry @ [d], Inv @ [u])"] show ?case
    by (simp add: acc p Let_def)
qed

lemma acquire_ok:
  assumes "Datacube env = None"
    and "find_lastline w (output_file (ID p)) (- 1) = Inr l"
    and "split_on CHR '','' l = [d, obs]"
    and "strptime env d = Inr t"
  shows "acquire env crs p w = (dc_load env (geometry p) crs, print (ID p) w)"
  using assms by (simp add: acquire_def Let_def)

lemma find_lastline_Some:
  "find_lastline w f n = Inr l \<Longrightarrow> \<exists>old. files w f = Some old"
  by (cases "files w f") (simp_all add: find_lastline_def)

lemma FindOut_acquire_failed:
  "acquire env crs p w = (Inl e, w') \<Longrightarrow> FindOutHowFullTheDamIs env crs p w = (Some e, w')"
  by (simp add: FindOutHowFullTheDamIs_def)

lemma FindOut_acquired:
  assumes "acquire env crs p w = (Inr WOFL, w')"
    and "timestep_loop WOFL ([], [], [], []) = Inr columns"
  shows "FindOutHowFullTheDamIs env crs p w =
           (None,
            if fst (filter_and_write env (ID p) WOFL columns w') = None
            then snd (filter_and_write env (ID p) WOFL columns w')
            else print (''This polygon isn't working...: '' @ ID p)
                   (snd (filter_and_write env (ID p) WOFL columns w')))"
  using assms
  by (cases "filter_and_write env (ID p) WOFL columns w'")
     (auto simp add: FindOutHowFullTheDamIs_def split: option.splits)

text \<open>
  Claim C10. Take two worlds with the same room for writing, in each of which the last
  line of the polygon's output file has two fields and a time stamp that parses. Then
  processing the polygon appends the same rows to the file in both worlds and ends in
  the same way: the time stamp read from the file has no influence on what is written.
\<close>

theorem checkpoint_not_used:
  assumes "free_lines w1 = free_lines w2"
    and "find_lastline w1 (output_file (ID p)) (- 1) = Inr l1"
    and "split_on CHR '','' l1 = [d1, o1]"
    and "strptime env d1 = Inr t1"
    and "find_lastline w2 (output_file (ID p)) (- 1) = Inr l2"
    and "split_on CHR '','' l2 = [d2, o2]"
    and "strptime env d2 = Inr t2"
  shows "\<exists>old1 old2 rows.
           files w1 (output_file (ID p)) = Some old1 \<and>
           files w2 (output_file (ID p)) = Some old2 \<and>
           files (snd (FindOutHowFullTheDamIs env crs p w1)) (output_file (ID p)) =
             Some (old1 @ rows) \<and>
           files (snd (FindOutHowFullTheDamIs env crs p w2)) (output_file (ID p)) =
             Some (old2 @ rows) \<and>
           fst (FindOutHowFullTheDamIs env crs p w1) = fst (FindOutHowFullTheDamIs env crs p w2)"
proof -
  let ?f = "output_file (ID p)"
  from assms(2) obtain old1 where old1: "files w1 ?f = Some old1"
    by (blast dest: find_lastline_Some)
  from assms(5) obtain old2 where old2: "files w2 ?f = Some old2"
    by (blast dest: find_lastline_Some)
  show ?thesis
  proof (cases "Datacube env")
    case (Some e)
    then have "FindOutHowFullTheDamIs env crs p w1 = (Some e, w1)"
      and "FindOutHowFullTheDamIs env crs p w2 = (Some e, w2)"
      by (simp_all add: FindOutHowFullTheDamIs_def acquire_def)
    with old1 old2 show ?thesis by simp
  next
    case None
    have a1: "acquire env crs p w1 = (dc_load env (geometry p) crs, print (ID p) w1)"
      using None assms(2-4) by (rule acquire_ok)
    have a2: "acquire env crs p w2 = (dc_load env (geometry p) crs, print (ID p) w2)"
      using None assms(5-7) by (rule acquire_ok)
    show ?thesis
    proof (cases "dc_load env (geometry p) crs")
      case (Inl e)
      with a1 a2 have "FindOutHowFullTheDamIs env crs p w1 = (Some e, print (ID p) w1)"
        and "FindOutHowFullTheDamIs env crs p w2 = (Some e, print (ID p) w2)"
        by (simp_all add: FindOut_acquire_failed)
      with old1 old2 show ?thesis by simp
    next
      case (Inr WOFL)
      obtain columns where columns: "timestep_loop WOFL ([], [], [], []) = Inr columns"
        using timestep_loop_total by blast
      let ?r1 = "filter_and_write env (ID p) WOFL columns (print (ID p) w1)"
      let ?r2 = "filter_and_write env (ID p) WOFL columns (print (ID p) w2)"
      have "\<exists>rows. files (snd ?r1) ?f = Some (old1 @ rows) \<and>
                   files (snd ?r2) ?f = Some (old2 @ rows) \<and> fst ?r1 = fst ?r2"
        by (rule filter_and_write_indep) (simp_all add: assms(1) old1 old2)
      then obtain rows where rows: "files (snd ?r1) ?f = Some (old1 @ rows)"
        "files (snd ?r2) ?f = Some (old2 @ rows)" "fst ?r1 = fst ?r2"
        by blast
      from a1 Inr columns have f1: "FindOutHowFullTheDamIs env crs p w1 =
          (None, if fst ?r1 = None then snd ?r1
                 else print (''This polygon isn't working...: '' @ ID p) (snd ?r1))"
        by (simp add: FindOut_acquired)
      from a2 Inr columns have f2: "FindOutHowFullTheDamIs env crs p w2 =
          (None, if fst ?r2 = None then snd ?r2
                 else print (''This polygon isn't working...: '' @ ID p) (snd ?r2))"
        by (simp add: FindOut_acquired)
      from rows old1 old2 show ?thesis
        by (simp add: f1 f2)
    qed
  qed
qed


lemma example_timestep_loop:
  "timestep_loop example_WOFL ([], [], [], []) =
     Inr ([40, 30, 0, 95], [4, 3, 0, 19], [60, 60, 0, 0], [0, 10, 100, 5])"
  by (simp add: example_WOFL_def percentages_def py_truediv_def exn_bind_def)


lemma example_py_str:
  "py_str 0 = ''0'' \<and> py_str 1 = ''1'' \<and> py_str 2 = ''2'' \<and> py_str 4 = ''4'' \<and>
   py_str 19 = ''19'' \<and> py_str 40 = ''40'' \<and> py_str 95 = ''95''"
  by code_simp

lemma example_py_int: "py_int ''1'' = Inr 1"
  by code_simp

lemma example_strptime_values:
  "example_strptime ''2017-12-16 00:00:00.000000'' = Inr 20171216000000000000 \<and>
   example_strptime ''2018-06-30 12:30:00.500000'' = Inr 20180630123000500000"
  by (simp add: example_strptime_def is_digit_def digit_value_def)

lemma example_checkpoint:
  "find_lastline (example_world (d @ '',40.0'') n) (output_file ''7'') (- 1) = Inr (d @ '',40.0'')"
  by (simp add: find_lastline_def example_world_def py_index_def exn_bind_def)







theorem checkpoint_not_used_witness:
  "free_lines (example_world ''2017-12-16 00:00:00.000000,40.0'' 5) = free_lines (example_world ''2018-06-30 12:30:00.500000,40.0'' 5) \<and>
   find_lastline (example_world ''2017-12-16 00:00:00.000000,40.0'' 5) (output_file ''7'') (- 1) = Inr ''2017-12-16 00:00:00.000000,40.0'' \<and>
   find_lastline (example_world ''2018-06-30 12:30:00.500000,40.0'' 5) (output_file ''7'') (- 1) = Inr ''2018-06-30 12:30:00.500000,40.0'' \<and>
   strptime example_env ''2017-12-16 00:00:00.000000'' = Inr 20171216000000000000 \<and>
   strptime example_env ''2018-06-30 12:30:00.500000'' = Inr 20180630123000500000 \<and>
   (\<exists>old1 old2 rows.
      files (example_world ''2017-12-16 00:00:00.000000,40.0'' 5) (output_file ''7'') = Some old1 \<and>
      files (example_world ''2018-06-30 12:30:00.500000,40.0'' 5) (output_file ''7'') = Some old2 \<and>
      files (snd (FindOutHowFullTheDamIs example_env ''EPSG:3577'' (example_polygon ''7'')
                    (example_world ''2017-12-16 00:00:00.000000,40.0'' 5))) (output_file ''7'') = Some (old1 @ rows) \<and>
      files (snd (FindOutHowFullTheDamIs example_env ''EPSG:3577'' (example_polygon ''7'')
                    (example_world ''2018-06-30 12:30:00.500000,40.0'' 5))) (output_file ''7'') = Some (old2 @ rows) \<and>
      fst (FindOutHowFullTheDamIs example_env ''EPSG:3577'' (example_polygon ''7'')
             (example_world ''2017-12-16 00:00:00.000000,40.0'' 5)) =
      fst (FindOutHowFullTheDamIs example_env ''EPSG:3577'' (example_polygon ''7'')
             (example_world ''2018-06-30 12:30:00.500000,40.0'' 5)))"
proof -
  let ?w1 = "example_world ''2017-12-16 00:00:00.000000,40.0'' 5"
  let ?w2 = "example_world ''2018-06-30 12:30:00.500000,40.0'' 5"
  let ?p = "example_polygon ''7''"
  have p7: "ID ?p = ''7''"
    by (simp add: example_polygon_def)
  have h0: "free_lines ?w1 = free_lines ?w2"
    by (simp add: example_world_def)
  have h1: "find_lastline ?w1 (output_file (ID ?p)) (- 1) = Inr ''2017-12-16 00:00:00.000000,40.0''"
    using example_checkpoint [of "''2017-12-16 00:00:00.000000''" 5] by (simp add: p7)
  have h2: "split_on CHR '','' ''2017-12-16 00:00:00.000000,40.0'' = [''2017-12-16 00:00:00.000000'', ''40.0'']"
    by simp
  have h3: "strptime example_env ''2017-12-16 00:00:00.000000'' = Inr 20171216000000000000"
    by (simp add: example_env_def example_strptime_values)
  have h4: "find_lastline ?w2 (output_file (ID ?p)) (- 1) = Inr ''2018-06-30 12:30:00.500000,40.0''"
    using example_checkpoint [of "''2018-06-30 12:30:00.500000''" 5] by (simp add: p7)
  have h5: "split_on CHR '','' ''2018-06-30 12:30:00.500000,40.0'' = [''2018-06-30 12:30:00.500000'', ''40.0'']"
    by simp
  have h6: "strptime example_env ''2018-06-30 12:30:00.500000'' = Inr 20180630123000500000"
    by (simp add: example_env_def example_strptime_values)
  note r = checkpoint_not_used [OF h0 h1 h2 h3 h4 h5 h6, of "''EPSG:3577''", unfolded p7]
  from r h0 h1 [unfolded p7] h3 h4 [unfolded p7] h6
  show ?thesis
    by blast
qed

text \<open>
  Claim C3, as the script computes it. With three polygons the chunk size is
  \<open>ceil(3/32) + 1 = 2\<close>, so the chunk for index 1 is the first two polygons, and the
  script, once it has read the date log, processes these two in order.
\<close>

theorem three_polygons_chunk_1:
  "shapessubset [a, b, c] 1 = [a, b] \<and>
   (find_lastline w lastDateLog (- 1) = Inr lastTime \<longrightarrow>
      script env [prog, ''1''] crs [a, b, c] w =
        for_loop env crs [a, b]
          (print ''The index we will use is (0, 2)''
            (print ''Working on chunk 1''
              (print (''Reading in '' @ shape_file) w))))"
proof (intro conjI impI)
  show s: "shapessubset [a, b, c] 1 = [a, b]"
    by (simp add: shapessubset_def collection_slice_def ChunkSize_div py_slice_def)
  assume "find_lastline w lastDateLog (- 1) = Inr lastTime"
  moreover have "ChunkSize [a, b, c] = 2"
    by (simp add: ChunkSize_div)
  moreover have "py_index [prog, ''1''] 1 = Inr ''1''"
    by (simp add: py_index_def)
  ultimately show "script env [prog, ''1''] crs [a, b, c] w =
        for_loop env crs [a, b]
          (print ''The index we will use is (0, 2)''
            (print ''Working on chunk 1''
              (print (''Reading in '' @ shape_file) w)))"
    by (simp add: script_def Let_def exn_bind_def example_py_int example_py_str s)
qed

theorem three_polygons_chunk_1_witness:
  "find_lastline (example_world ''2017-12-16 00:00:00.000000,40.0'' 5) lastDateLog (- 1) = Inr ''2018-08-01'' \<and>
   script example_env [''AppendDamTimeHistoryParallel.py'', ''1''] ''EPSG:3577''
       [example_polygon ''7'', example_polygon ''8'', example_polygon ''9'']
       (example_world ''2017-12-16 00:00:00.000000,40.0'' 5) =
     for_loop example_env ''EPSG:3577'' [example_polygon ''7'', example_polygon ''8'']
       (print ''The index we will use is (0, 2)''
         (print ''Working on chunk 1''
           (print (''Reading in '' @ shape_file) (example_world ''2017-12-16 00:00:00.000000,40.0'' 5))))"
proof -
  have h: "find_lastline (example_world ''2017-12-16 00:00:00.000000,40.0'' 5) lastDateLog (- 1) = Inr ''2018-08-01''"
    by (simp add: find_lastline_def example_world_def py_index_def exn_bind_def
          output_file_def lastDateLog_def Output_dir_def)
  from three_polygons_chunk_1 [of "example_polygon ''7''" "example_polygon ''8''"
      "example_polygon ''9''" "example_world ''2017-12-16 00:00:00.000000,40.0'' 5" "''2018-08-01''"
      example_env "''AppendDamTimeHistoryParallel.py''" "''EPSG:3577''"] h
  show ?thesis
    by simp
qed

text \<open>
  Claim C3 as stated gives the slice \<open>[0, 1)\<close>, the first polygon alone. The chunk for
  index 1 of a list of three polygons is neither that slice nor that polygon alone.
\<close>

theorem three_polygons_chunk_1_counterexample:
  "shapessubset [example_polygon ''7'', example_polygon ''8'', example_polygon ''9''] 1 \<noteq>
     py_slice [example_polygon ''7'', example_polygon ''8'', example_polygon ''9''] 0 1 \<and>
   shapessubset [example_polygon ''7'', example_polygon ''8'', example_polygon ''9''] 1 \<noteq>
     [example_polygon ''7'']"
  by (simp add: shapessubset_def collection_slice_def ChunkSize_div py_slice_def)

lemma timestep_loop_columns:
  "timestep_loop WOFL (Pc0, Ct0, Dry0, Inv0) = Inr (Pc, Ct, Dry, Inv) \<Longrightarrow>
   \<exists>ws ds us.
     Pc = Pc0 @ ws \<and> Ct = Ct0 @ map count_wet WOFL \<and> Dry = Dry0 @ ds \<and> Inv = Inv0 @ us \<and>
     length ws = length WOFL \<and> length ds = length WOFL \<and> length us = length WOFL \<and>
     (\<forall>i<length WOFL.
        percentages (count_all (WOFL ! i)) (count_wet (WOFL ! i)) (count_dry (WOFL ! i)) =
          Inr (ws ! i, ds ! i, us ! i))"
proof (induction WOFL arbitrary: Pc0 Ct0 Dry0 Inv0)
  case Nil
  then show ?case by simp
next
  case (Cons slice WOFL)
  from Cons.prems obtain w d u
    where p: "percentages (count_all slice) (count_wet slice) (count_dry slice) = Inr (w, d, u)"
      and rest: "timestep_loop WOFL (Pc0 @ [w], Ct0 @ [count_wet slice], Dry0 @ [d], Inv0 @ [u]) =
                   Inr (Pc, Ct, Dry, Inv)"
    by (auto simp add: Let_def split: sum.splits)
  from Cons.IH [OF rest] obtain ws ds us
    where eqs: "Pc = (Pc0 @ [w]) @ ws" "Ct = (Ct0 @ [count_wet slice]) @ map count_wet WOFL"
        "Dry = (Dry0 @ [d]) @ ds" "Inv = (Inv0 @ [u]) @ us"
      and lens: "length ws = length WOFL" "length ds = length WOFL" "length us = length WOFL"
      and nth: "\<forall>i<length WOFL.
        percentages (count_all (WOFL ! i)) (count_wet (WOFL ! i)) (count_dry (WOFL ! i)) =
          Inr (ws ! i, ds ! i, us ! i)"
    by blast
  have "\<forall>i<length (slice # WOFL).
        percentages (count_all ((slice # WOFL) ! i)) (count_wet ((slice # WOFL) ! i))
          (count_dry ((slice # WOFL) ! i)) = Inr ((w # ws) ! i, (d # ds) ! i, (u # us) ! i)"
    using p nth by (auto simp add: nth_Cons split: nat.splits)
  with eqs lens show ?case
    by (intro exI [of _ "w # ws"] exI [of _ "d # ds"] exI [of _ "u # us"]) simp
qed

lemma ValidMask_filter: "ValidMask xs = filter (\<lambda>i. xs ! i < 10) [0..<length xs]"
proof (induction xs rule: rev_induct)
  case Nil
  show ?case by (simp add: ValidMask_def)
next
  case (snoc x xs)
  have "filter (\<lambda>i. (xs @ [x]) ! i < 10) [0..<length xs] = filter (\<lambda>i. xs ! i < 10) [0..<length xs]"
    by (rule filter_cong) (simp_all add: nth_append)
  with snoc show ?case
    by (simp add: ValidMask_def enumerate_append_eq)
qed

lemma split_on_line: "nl \<notin> set t \<Longrightarrow> split_on nl (t @ nl # rest) = t # split_on nl rest"
  by (induction t) auto

lemma split_on_lines:
  "\<forall>t\<in>set ts. nl \<notin> set t \<Longrightarrow> split_on nl (concat (map (\<lambda>t. t @ [nl]) ts)) = ts @ [[]]"
  by (induction ts) (simp_all add: split_on_line)

lemma zip_three_maps: "zip (map f xs) (zip (map g xs) (map h xs)) = map (\<lambda>x. (f x, g x, h x)) xs"
  by (induction xs) simp_all

lemma writerows_files:
  "files w f = Some old \<Longrightarrow>
   fst (writerows env f rows w) = (if length rows \<le> free_lines w then None else Some OSError) \<and>
   files (snd (writerows env f rows w)) f =
     Some (old @ map (\<lambda>(date, ct, pc). csv_row env date ct pc) (take (free_lines w) rows))"
proof (induction rows arbitrary: w old)
  case Nil
  then show ?case by simp
next
  case (Cons row rows)
  obtain date ct pc where row: "row = (date, ct, pc)"
    using prod_cases3 by blast
  show ?case
  proof (cases "free_lines w")
    case 0
    with Cons.prems show ?thesis
      by (simp add: row writerow_def)
  next
    case (Suc n)
    let ?w = "w\<lparr>files := (files w)(f \<mapsto> old @ [csv_row env date ct pc]), free_lines := n\<rparr>"
    have step: "writerows env f (row # rows) w = writerows env f rows ?w"
      using Suc Cons.prems by (simp add: row writerow_def)
    have "files ?w f = Some (old @ [csv_row env date ct pc])"
      by simp
    from Cons.IH [OF this] Suc show ?thesis
      unfolding step by (simp add: row)
  qed
qed

lemma filter_and_write_rows:
  assumes csv: "\<forall>ts. to_csv env ts = Inr (concat (map (\<lambda>t. t @ [CHR 0x0A]) ts))"
    and nl: "\<forall>slice\<in>set WOFL. CHR 0x0A \<notin> set (time slice)"
    and old: "files w (output_file polyName) = Some old"
    and len: "length Inv = length WOFL"
  shows "fst (filter_and_write env polyName WOFL (Pc, Ct, Dry, Inv) w) =
           (if length (filter (\<lambda>i. Inv ! i < 10) [0..<length WOFL]) \<le> free_lines w
            then None else Some OSError) \<and>
         files (snd (filter_and_write env polyName WOFL (Pc, Ct, Dry, Inv) w)) (output_file polyName) =
           Some (old @ take (free_lines w)
                   (map (\<lambda>i. csv_row env (time (WOFL ! i)) (Ct ! i) (Pc ! i))
                      (filter (\<lambda>i. Inv ! i < 10) [0..<length WOFL])))"
proof -
  let ?f = "output_file polyName"
  let ?M = "filter (\<lambda>i. Inv ! i < 10) [0..<length WOFL]"
  let ?ts = "map (\<lambda>i. time (WOFL ! i)) ?M"
  let ?rows = "map (\<lambda>i. (time (WOFL ! i), Ct ! i, Pc ! i)) ?M"
  have mask: "ValidMask Inv = ?M"
    by (simp add: ValidMask_filter len)
  have "\<forall>t\<in>set ?ts. CHR 0x0A \<notin> set t"
    using nl by auto
  then have dates: "split_on (CHR 0x0A) (concat (map (\<lambda>t. t @ [CHR 0x0A]) ?ts)) = ?ts @ [[]]"
    by (rule split_on_lines)
  have rows: "zip (?ts @ [[]]) (zip (map (\<lambda>i. Ct ! i) ?M) (map (\<lambda>i. Pc ! i) ?M)) = ?rows"
    by (simp add: zip_append1 zip_three_maps)
  have run: "filter_and_write env polyName WOFL (Pc, Ct, Dry, Inv) w =
               writerows env ?f ?rows (open_append ?f w)"
    by (simp add: filter_and_write_def mask csv dates rows Let_def del: map_map)
  have "files (open_append ?f w) ?f = Some old"
    by (simp add: open_append_def old)
  from writerows_files [OF this, of env ?rows] show ?thesis
    by (simp add: run open_append_def take_map o_def)
qed

lemma ValidMask_set: "i \<in> set (ValidMask xs) \<longleftrightarrow> i < length xs \<and> xs ! i < 10"
  by (auto simp add: ValidMask_filter)

text \<open>
  Claim C7. Let the loop over the time steps have filled the four columns. Then each
  column has one entry for every time slice, the entries at a position are the
  percentages and the wet count of the slice at that position, and a position is in
  \<open>ValidMask\<close> exactly when the indeterminate percentage there is below 10; at exactly 10
  the slice is left out. When \<^verbatim>\<open>to_csv\<close> prints one line for each time stamp, the rows
  appended to the polygon's file are those of the slices whose indeterminate percentage
  is below 10, in the order of the dataset and with the time stamp, wet count and wet
  percentage of the slice, cut off where the file system stops accepting lines; no other
  slice is written.
\<close>

theorem observation_filter:
  assumes "timestep_loop WOFL ([], [], [], []) =
             Inr (DamCapacityPc, DamCapacityCt, DryObserved, InvalidObservations)"
  shows "length DamCapacityPc = length WOFL \<and> length DamCapacityCt = length WOFL \<and>
         length InvalidObservations = length WOFL \<and>
         (\<forall>i<length WOFL.
            percentages (count_all (WOFL ! i)) (count_wet (WOFL ! i)) (count_dry (WOFL ! i)) =
              Inr (DamCapacityPc ! i, DryObserved ! i, InvalidObservations ! i) \<and>
            DamCapacityCt ! i = count_wet (WOFL ! i)) \<and>
         (\<forall>i. i \<in> set (ValidMask InvalidObservations) \<longleftrightarrow>
                i < length WOFL \<and> InvalidObservations ! i < 10) \<and>
         (\<forall>i. InvalidObservations ! i = 10 \<longrightarrow> i \<notin> set (ValidMask InvalidObservations)) \<and>
         ((\<forall>ts. to_csv env ts = Inr (concat (map (\<lambda>t. t @ [CHR 0x0A]) ts))) \<and>
          (\<forall>slice\<in>set WOFL. CHR 0x0A \<notin> set (time slice)) \<and>
          files w (output_file polyName) = Some old \<longrightarrow>
            fst (filter_and_write env polyName WOFL
                   (DamCapacityPc, DamCapacityCt, DryObserved, InvalidObservations) w) =
              (if length (filter (\<lambda>i. InvalidObservations ! i < 10) [0..<length WOFL]) \<le> free_lines w
               then None else Some OSError) \<and>
            files (snd (filter_and_write env polyName WOFL
                     (DamCapacityPc, DamCapacityCt, DryObserved, InvalidObservations) w))
                (output_file polyName) =
              Some (old @ take (free_lines w)
                      (map (\<lambda>i. csv_row env (time (WOFL ! i)) (DamCapacityCt ! i) (DamCapacityPc ! i))
                         (filter (\<lambda>i. InvalidObservations ! i < 10) [0..<length WOFL]))))"
proof -
  from timestep_loop_columns [OF assms]
  have lens: "length DamCapacityPc = length WOFL" "length DamCapacityCt = length WOFL"
      "length InvalidObservations = length WOFL"
    and ct: "DamCapacityCt = map count_wet WOFL"
    and nth: "\<forall>i<length WOFL.
        percentages (count_all (WOFL ! i)) (count_wet (WOFL ! i)) (count_dry (WOFL ! i)) =
          Inr (DamCapacityPc ! i, DryObserved ! i, InvalidObservations ! i)"
    by auto
  have cols: "\<forall>i<length WOFL.
            percentages (count_all (WOFL ! i)) (count_wet (WOFL ! i)) (count_dry (WOFL ! i)) =
              Inr (DamCapacityPc ! i, DryObserved ! i, InvalidObservations ! i) \<and>
            DamCapacityCt ! i = count_wet (WOFL ! i)"
    using nth by (simp add: ct)
  have mask: "\<forall>i. i \<in> set (ValidMask InvalidObservations) \<longleftrightarrow>
                i < length WOFL \<and> InvalidObservations ! i < 10"
    by (simp add: ValidMask_set lens)
  have ten: "\<forall>i. InvalidObservations ! i = 10 \<longrightarrow> i \<notin> set (ValidMask InvalidObservations)"
    by (simp add: ValidMask_set)
  have written: "(\<forall>ts. to_csv env ts = Inr (concat (map (\<lambda>t. t @ [CHR 0x0A]) ts))) \<and>
          (\<forall>slice\<in>set WOFL. CHR 0x0A \<notin> set (time slice)) \<and>
          files w (output_file polyName) = Some old \<longrightarrow>
            fst (filter_and_write env polyName WOFL
                   (DamCapacityPc, DamCapacityCt, DryObserved, InvalidObservations) w) =
              (if length (filter (\<lambda>i. InvalidObservations ! i < 10) [0..<length WOFL]) \<le> free_lines w
               then None else Some OSError) \<and>
            files (snd (filter_and_write env polyName WOFL
                     (DamCapacityPc, DamCapacityCt, DryObserved, InvalidObservations) w))
                (output_file polyName) =
              Some (old @ take (free_lines w)
                      (map (\<lambda>i. csv_row env (time (WOFL ! i)) (DamCapacityCt ! i) (DamCapacityPc ! i))
                         (filter (\<lambda>i. InvalidObservations ! i < 10) [0..<length WOFL])))"
    using filter_and_write_rows [of env WOFL w polyName old InvalidObservations
        DamCapacityPc DamCapacityCt DryObserved] lens(3)
    by blast
  from lens cols mask ten written show ?thesis
    by blast
qed

lemma example_retained: "filter (\<lambda>i. [0, 10, 100, 5 :: real] ! i < 10) [0..<length example_WOFL] = [0, 3]"
  by (simp add: example_WOFL_def upt_rec)

lemma example_rows:
  "map (\<lambda>i. csv_row example_env (time (example_WOFL ! i)) ([4, 3, 0, 19] ! i) ([40, 30, 0, 95] ! i))
     [0, 3] = [''2018-01-01,4,40'', ''2018-02-18,19,95'']"
proof -
  have "csv_row example_env (time (example_WOFL ! 0)) 4 40 = ''2018-01-01,4,40''"
    by (simp add: example_env_def example_WOFL_def example_py_str)
  moreover have "csv_row example_env (time (example_WOFL ! 3)) 19 95 = ''2018-02-18,19,95''"
    by (simp add: example_env_def example_WOFL_def example_py_str)
  ultimately show ?thesis
    by simp
qed

theorem observation_filter_witness:
  "timestep_loop example_WOFL ([], [], [], []) =
     Inr ([40, 30, 0, 95], [4, 3, 0, 19], [60, 60, 0, 0], [0, 10, 100, 5]) \<and>
   (\<forall>ts. to_csv example_env ts = Inr (concat (map (\<lambda>t. t @ [CHR 0x0A]) ts))) \<and>
   list_all (\<lambda>slice. CHR 0x0A \<notin> set (time slice)) example_WOFL \<and>
   files (example_world ''2017-12-16 00:00:00.000000,40.0'' 5) (output_file ''7'') =
     Some [''2017-12-16 00:00:00.000000,40.0''] \<and>
   percentages (count_all (example_WOFL ! 1)) (count_wet (example_WOFL ! 1))
     (count_dry (example_WOFL ! 1)) = Inr (30, 60, 10) \<and>
   1 \<notin> set (ValidMask [0, 10, 100, 5]) \<and>
   0 \<in> set (ValidMask [0, 10, 100, 5]) \<and>
   fst (filter_and_write example_env ''7'' example_WOFL
          ([40, 30, 0, 95], [4, 3, 0, 19], [60, 60, 0, 0], [0, 10, 100, 5])
          (example_world ''2017-12-16 00:00:00.000000,40.0'' 5)) = None \<and>
   files (snd (filter_and_write example_env ''7'' example_WOFL
          ([40, 30, 0, 95], [4, 3, 0, 19], [60, 60, 0, 0], [0, 10, 100, 5])
          (example_world ''2017-12-16 00:00:00.000000,40.0'' 5))) (output_file ''7'') =
     Some [''2017-12-16 00:00:00.000000,40.0'', ''2018-01-01,4,40'', ''2018-02-18,19,95'']"
proof -
  let ?w = "example_world ''2017-12-16 00:00:00.000000,40.0'' 5"
  have csv: "\<forall>ts. to_csv example_env ts = Inr (concat (map (\<lambda>t. t @ [CHR 0x0A]) ts))"
    by (simp add: example_env_def)
  have nl: "\<forall>slice\<in>set example_WOFL. CHR 0x0A \<notin> set (time slice)"
    by (simp add: example_WOFL_def)
  have nl': "list_all (\<lambda>slice. CHR 0x0A \<notin> set (time slice)) example_WOFL"
    by (simp add: example_WOFL_def)
  have old: "files ?w (output_file ''7'') = Some [''2017-12-16 00:00:00.000000,40.0'']"
    by (simp add: example_world_def)
  have len: "(1::nat) < length example_WOFL"
    by (simp add: example_WOFL_def)
  have room: "free_lines ?w = 5"
    by (simp add: example_world_def)
  note r = observation_filter [OF example_timestep_loop, of example_env ?w "''7''"
      "[''2017-12-16 00:00:00.000000,40.0'']"]
  note columns = r [THEN conjunct2, THEN conjunct2, THEN conjunct2, THEN conjunct1]
  note mask = r [THEN conjunct2, THEN conjunct2, THEN conjunct2, THEN conjunct2, THEN conjunct1]
  note written = r [THEN conjunct2, THEN conjunct2, THEN conjunct2, THEN conjunct2,
      THEN conjunct2, THEN conjunct2]
  from columns [rule_format, OF len, THEN conjunct1]
  have p: "percentages (count_all (example_WOFL ! 1)) (count_wet (example_WOFL ! 1))
     (count_dry (example_WOFL ! 1)) = Inr (30, 60, 10)"
    by simp
  have m1: "1 \<notin> set (ValidMask [0, 10, 100, 5])"
    by (simp add: mask [rule_format])
  have m0: "0 \<in> set (ValidMask [0, 10, 100, 5])"
    by (simp add: mask [rule_format] example_WOFL_def)
  from written [rule_format, OF conjI [OF csv conjI [OF nl old]]]
  have wr: "fst (filter_and_write example_env ''7'' example_WOFL
          ([40, 30, 0, 95], [4, 3, 0, 19], [60, 60, 0, 0], [0, 10, 100, 5]) ?w) = None \<and>
     files (snd (filter_and_write example_env ''7'' example_WOFL
          ([40, 30, 0, 95], [4, 3, 0, 19], [60, 60, 0, 0], [0, 10, 100, 5]) ?w)) (output_file ''7'') =
       Some [''2017-12-16 00:00:00.000000,40.0'', ''2018-01-01,4,40'', ''2018-02-18,19,95'']"
    unfolding example_retained example_rows room by simp
  show ?thesis
    using example_timestep_loop csv nl' old p m1 m0 wr by (intro conjI) simp_all
qed

end
